theory Spec2Isabelle
  imports Complex_Main "HOL-Library.AList" "HOL-Library.Finite_Map"
begin

section \<open>Values, documents and the store\<close>

text \<open>
  The values of a parsed JSON request body and of a stored document field.
  \<open>JUndefined\<close> is what reading an absent property gives; \<open>JTime\<close> is the value the store
  puts in place of \<open>FieldValue.serverTimestamp()\<close>. A number is kept as its numeric
  value: the handlers only ask whether it is zero (NaN cannot occur in a JSON body).
\<close>

datatype val =
    JUndefined
  | JNull
  | JBool bool
  | JNum real
  | JStr string
  | JArr "val list"
  | JObj "(string, val) fmap"
  | JTime nat

text \<open>JavaScript truthiness, as used by \<open>!orderNumber\<close>, \<open>!drawResult\<close> and
  \<open>if (orderData.hasPlayed)\<close>.\<close>

fun truthy :: "val \<Rightarrow> bool" where
  "truthy JUndefined = False"
| "truthy JNull = False"
| "truthy (JBool b) = b"
| "truthy (JNum n) = (n \<noteq> 0)"
| "truthy (JStr s) = (s \<noteq> [])"
| "truthy (JArr xs) = True"
| "truthy (JObj m) = True"
| "truthy (JTime t) = True"

text \<open>A JavaScript object (a request body, the data of a document): a map from property
  names to values.\<close>

type_synonym obj = "string \<rightharpoonup> val"

text \<open>Property access \<open>o.p\<close>, also what destructuring \<open>const { p } = o\<close> reads.\<close>

definition get_field :: "obj \<Rightarrow> string \<Rightarrow> val" where
  "get_field ob p = (case ob p of None \<Rightarrow> JUndefined | Some v \<Rightarrow> v)"

text \<open>A collection: its documents by document id, in the order in which a query returns
  them. The store has the two collections the handlers name.\<close>

type_synonym collection = "(string \<times> obj) list"

record store =
  orderNumbers :: collection
  drawResults :: collection

text \<open>The calls that reach the store. A handler's outcome lists the ones it made.\<close>

datatype store_op =
    OpQuery val
  | OpGet string
  | OpUpdate string
  | OpSet string

fun is_write :: "store_op \<Rightarrow> bool" where
  "is_write (OpQuery v) = False"
| "is_write (OpGet k) = False"
| "is_write (OpUpdate k) = True"
| "is_write (OpSet k) = True"

text \<open>What a call into the database client can throw: a document path it refuses, a
  store call that fails, an update of a document that is not there.\<close>

datatype sdk_error =
    InvalidPath val
  | Failed store_op
  | NoDocument string

text \<open>
  What a handler does not decide: the server's clock when the draw result is written,
  which store calls fail, and how the client resolves a path that has a \<open>/\<close> in it
  (\<open>None\<close>: it throws; \<open>Some k\<close>: it addresses \<open>k\<close>). A call that fails has no effect on
  the store.
\<close>

record env =
  now :: nat
  fails :: "store_op \<Rightarrow> bool"
  slash_path :: "string \<Rightarrow> string option"

text \<open>\<open>collection.doc(path)\<close>: the path must be a non-empty string; a string without
  \<open>/\<close> is the document id itself.\<close>

definition doc_ref :: "env \<Rightarrow> val \<Rightarrow> sdk_error + string" where
  "doc_ref e v =
     (case v of
        JStr s \<Rightarrow>
          if s = [] then Inl (InvalidPath v)
          else if CHR ''/'' \<in> set s then
            (case slash_path e s of None \<Rightarrow> Inl (InvalidPath v) | Some k \<Rightarrow> Inr k)
          else Inr s
      | _ \<Rightarrow> Inl (InvalidPath v))"

text \<open>\<open>collection.where(f, '==', v).get()\<close>: the documents whose field \<open>f\<close> is \<open>v\<close>.\<close>

definition where_eq :: "collection \<Rightarrow> string \<Rightarrow> val \<Rightarrow> collection" where
  "where_eq c f v = filter (\<lambda>(k, d). d f = Some v) c"

text \<open>\<open>docRef.get()\<close>: the snapshot; \<open>None\<close> is \<open>exists = false\<close>.\<close>

definition get_doc :: "collection \<Rightarrow> string \<Rightarrow> obj option" where
  "get_doc c k = map_of c k"

text \<open>\<open>docRef.update(u)\<close>: overwrites the fields of \<open>u\<close> in the document; \<open>None\<close> when
  there is no such document (the client rejects the update).\<close>

fun update_doc :: "collection \<Rightarrow> string \<Rightarrow> obj \<Rightarrow> collection option" where
  "update_doc [] k u = None"
| "update_doc ((k', d) # c) k u =
     (if k' = k then Some ((k', d ++ u) # c)
      else map_option (Cons (k', d)) (update_doc c k u))"

text \<open>\<open>docRef.set(d)\<close>: replaces the document, or creates it.\<close>

definition set_doc :: "collection \<Rightarrow> string \<Rightarrow> obj \<Rightarrow> collection" where
  "set_doc c k d = AList.update k d c"

section \<open>Responses\<close>

datatype body_text = Lit string | MessageOf sdk_error

record response =
  status :: nat
  success :: bool
  error :: "body_text option"
  message :: "string option"

definition msg_required :: string where
  "msg_required = ''Order number is required.''"

definition msg_both_required :: string where
  "msg_both_required = ''Order number and draw result are required.''"

definition msg_unqualified :: string where
  "msg_unqualified = ''Please input a qualified order number. Contact your sales representative for more information.''"

definition msg_used :: string where
  "msg_used = ''You have used your chance.''"

definition msg_valid :: string where
  "msg_valid = ''Order number is valid. Proceed with the draw.''"

definition msg_absent :: string where
  "msg_absent = ''Order number does not exist.''"

definition msg_already_used :: string where
  "msg_already_used = ''You have already used your chance.''"

definition msg_recorded :: string where
  "msg_recorded = ''Draw result recorded successfully.''"

text \<open>\<open>res.status(c).json({ success: false, error: t })\<close>\<close>

definition fail_error :: "nat \<Rightarrow> body_text \<Rightarrow> response" where
  "fail_error c t = \<lparr>status = c, success = False, error = Some t, message = None\<rparr>"

text \<open>\<open>res.status(c).json({ success: false, message: m })\<close>\<close>

definition fail_message :: "nat \<Rightarrow> string \<Rightarrow> response" where
  "fail_message c m = \<lparr>status = c, success = False, error = None, message = Some m\<rparr>"

text \<open>\<open>res.json({ success: true, message: m })\<close>\<close>

definition ok_message :: "string \<Rightarrow> response" where
  "ok_message m = \<lparr>status = 200, success = True, error = None, message = Some m\<rparr>"

text \<open>The \<open>catch\<close> block of both handlers.\<close>

definition internal_error :: "sdk_error \<Rightarrow> response" where
  "internal_error x = fail_error 500 (MessageOf x)"

section \<open>The handlers\<close>

text \<open>What a request does: its response, the store it leaves, the store calls it made.\<close>

record outcome =
  resp :: response
  post :: store
  trace :: "store_op list"

text \<open>\<open>POST /check-order-number\<close>\<close>

definition check_order_number :: "env \<Rightarrow> store \<Rightarrow> obj \<Rightarrow> outcome" where
  "check_order_number e s body =
     (let orderNumber = get_field body ''orderNumber'' in
      if \<not> truthy orderNumber then
        \<lparr>resp = fail_error 400 (Lit msg_required), post = s, trace = []\<rparr>
      else if fails e (OpQuery orderNumber) then
        \<lparr>resp = internal_error (Failed (OpQuery orderNumber)), post = s,
         trace = [OpQuery orderNumber]\<rparr>
      else
        (case where_eq (orderNumbers s) ''orderNumber'' orderNumber of
           [] \<Rightarrow>
             \<lparr>resp = fail_message 404 msg_unqualified, post = s,
              trace = [OpQuery orderNumber]\<rparr>
         | (k, orderData) # others \<Rightarrow>
             if truthy (get_field orderData ''hasPlayed'') then
               \<lparr>resp = fail_message 400 msg_used, post = s, trace = [OpQuery orderNumber]\<rparr>
             else
               \<lparr>resp = ok_message msg_valid, post = s, trace = [OpQuery orderNumber]\<rparr>))"

text \<open>The two writes of \<open>POST /record-draw-result\<close>.\<close>

definition played :: "val \<Rightarrow> obj" where
  "played drawResult = [''hasPlayed'' \<mapsto> JBool True, ''drawResult'' \<mapsto> drawResult]"

definition draw_record :: "env \<Rightarrow> val \<Rightarrow> val \<Rightarrow> obj" where
  "draw_record e orderNumber drawResult =
     [''orderNumber'' \<mapsto> orderNumber, ''drawResult'' \<mapsto> drawResult,
      ''timestamp'' \<mapsto> JTime (now e)]"

text \<open>\<open>POST /record-draw-result\<close>\<close>

definition record_draw_result :: "env \<Rightarrow> store \<Rightarrow> obj \<Rightarrow> outcome" where
  "record_draw_result e s body =
     (let orderNumber = get_field body ''orderNumber''; drawResult = get_field body ''drawResult'' in
      if \<not> truthy orderNumber \<or> \<not> truthy drawResult then
        \<lparr>resp = fail_error 400 (Lit msg_both_required), post = s, trace = []\<rparr>
      else
        (case doc_ref e orderNumber of
           Inl x \<Rightarrow> \<lparr>resp = internal_error x, post = s, trace = []\<rparr>
         | Inr k \<Rightarrow>
             if fails e (OpGet k) then
               \<lparr>resp = internal_error (Failed (OpGet k)), post = s, trace = [OpGet k]\<rparr>
             else
               (case get_doc (orderNumbers s) k of
                  None \<Rightarrow> \<lparr>resp = fail_message 404 msg_absent, post = s, trace = [OpGet k]\<rparr>
                | Some orderData \<Rightarrow>
                    if truthy (get_field orderData ''hasPlayed'') then
                      \<lparr>resp = fail_message 400 msg_already_used, post = s, trace = [OpGet k]\<rparr>
                    else if fails e (OpUpdate k) then
                      \<lparr>resp = internal_error (Failed (OpUpdate k)), post = s,
                       trace = [OpGet k, OpUpdate k]\<rparr>
                    else
                      (case update_doc (orderNumbers s) k (played drawResult) of
                         None \<Rightarrow>
                           \<lparr>resp = internal_error (NoDocument k), post = s,
                            trace = [OpGet k, OpUpdate k]\<rparr>
                       | Some c \<Rightarrow>
                           if fails e (OpSet k) then
                             \<lparr>resp = internal_error (Failed (OpSet k)),
                              post = s\<lparr>orderNumbers := c\<rparr>,
                              trace = [OpGet k, OpUpdate k, OpSet k]\<rparr>
                           else
                             \<lparr>resp = ok_message msg_recorded,
                              post = s\<lparr>orderNumbers := c,
                                drawResults :=
                                  set_doc (drawResults s) k (draw_record e orderNumber drawResult)\<rparr>,
                              trace = [OpGet k, OpUpdate k, OpSet k]\<rparr>))))"

text \<open>\<open>GET /keep-alive\<close>: answers in plain text, without a store call.\<close>

definition keep_alive :: "store \<Rightarrow> string \<times> store" where
  "keep_alive s = (''Server is alive'', s)"

section \<open>The record handler, one store call at a time\<close>

text \<open>
  The record handler suspends at each \<open>await\<close>; between two of them another request may
  run. A task is a record request at one of these points: not started, after
  \<open>docRef.get()\<close> (holding the snapshot it read), after \<open>docRef.update()\<close>, and answered.
\<close>

datatype task =
    Begin obj
  | Got string val val "obj option"
  | Updated string val val
  | Done response

text \<open>One step runs a task to its next \<open>await\<close>, with the one store call made there.\<close>

fun record_step :: "env \<Rightarrow> store \<Rightarrow> task \<Rightarrow> task \<times> store" where
  "record_step e s (Begin body) =
     (let orderNumber = get_field body ''orderNumber''; drawResult = get_field body ''drawResult'' in
      if \<not> truthy orderNumber \<or> \<not> truthy drawResult then
        (Done (fail_error 400 (Lit msg_both_required)), s)
      else
        (case doc_ref e orderNumber of
           Inl x \<Rightarrow> (Done (internal_error x), s)
         | Inr k \<Rightarrow>
             if fails e (OpGet k) then (Done (internal_error (Failed (OpGet k))), s)
             else (Got k orderNumber drawResult (get_doc (orderNumbers s) k), s)))"
| "record_step e s (Got k orderNumber drawResult snapshot) =
     (case snapshot of
        None \<Rightarrow> (Done (fail_message 404 msg_absent), s)
      | Some orderData \<Rightarrow>
          if truthy (get_field orderData ''hasPlayed'') then
            (Done (fail_message 400 msg_already_used), s)
          else if fails e (OpUpdate k) then (Done (internal_error (Failed (OpUpdate k))), s)
          else
            (case update_doc (orderNumbers s) k (played drawResult) of
               None \<Rightarrow> (Done (internal_error (NoDocument k)), s)
             | Some c \<Rightarrow> (Updated k orderNumber drawResult, s\<lparr>orderNumbers := c\<rparr>)))"
| "record_step e s (Updated k orderNumber drawResult) =
     (if fails e (OpSet k) then (Done (internal_error (Failed (OpSet k))), s)
      else
        (Done (ok_message msg_recorded),
         s\<lparr>drawResults := set_doc (drawResults s) k (draw_record e orderNumber drawResult)\<rparr>))"
| "record_step e s (Done r) = (Done r, s)"

text \<open>A request served alone: its three steps in a row.\<close>

definition run_alone :: "env \<Rightarrow> store \<Rightarrow> obj \<Rightarrow> task \<times> store" where
  "run_alone e s body =
     (let (t1, s1) = record_step e s (Begin body);
          (t2, s2) = record_step e s1 t1
      in record_step e s2 t2)"

text \<open>Several requests in flight over one store: the schedule names, step by step, the
  request that runs next.\<close>

fun interleave :: "store \<Rightarrow> (env \<times> task) list \<Rightarrow> nat list \<Rightarrow> store \<times> (env \<times> task) list" where
  "interleave s ts [] = (s, ts)"
| "interleave s ts (i # sched) =
     (if i < length ts then
        (let (e, t) = ts ! i; (t', s') = record_step e s t
         in interleave s' (ts[i := (e, t')]) sched)
      else interleave s ts sched)"

text \<open>Record requests served one after the other, each on the store the one before left.\<close>

fun record_calls :: "store \<Rightarrow> (env \<times> obj) list \<Rightarrow> response list \<times> store" where
  "record_calls s [] = ([], s)"
| "record_calls s ((e, body) # rest) =
     (let out = record_draw_result e s body;
          (rs, s') = record_calls (post out) rest
      in (resp out # rs, s'))"

section \<open>The data model\<close>

text \<open>A document id is a non-empty string without \<open>/\<close>; the ids of a collection are
  distinct.\<close>

definition valid_id :: "string \<Rightarrow> bool" where
  "valid_id k = (k \<noteq> [] \<and> CHR ''/'' \<notin> set k)"

definition unique_ids :: "collection \<Rightarrow> bool" where
  "unique_ids c = distinct (map fst c)"

text \<open>Each order document carries its own id in its \<open>orderNumber\<close> field.\<close>

definition keyed_by_field :: "collection \<Rightarrow> bool" where
  "keyed_by_field c = list_all (\<lambda>(k, d). d ''orderNumber'' = Some (JStr k)) c"

text \<open>The number of draw-result documents of an order number.\<close>

definition draw_count :: "store \<Rightarrow> string \<Rightarrow> nat" where
  "draw_count s n = count_list (map fst (drawResults s)) n"

text \<open>The order document of \<open>n\<close> is there and has \<open>hasPlayed = true\<close>.\<close>

definition has_played :: "store \<Rightarrow> string \<Rightarrow> bool" where
  "has_played s n =
     (case get_doc (orderNumbers s) n of
        None \<Rightarrow> False
      | Some d \<Rightarrow> d ''hasPlayed'' = Some (JBool True))"

text \<open>The invariant of the data model, for one order number: at most one draw-result
  document, and one exactly when the order document has \<open>hasPlayed = true\<close>.\<close>

definition redemption_inv :: "store \<Rightarrow> string \<Rightarrow> bool" where
  "redemption_inv s n =
     (draw_count s n \<le> 1 \<and> ((get_doc (drawResults s) n \<noteq> None) = has_played s n))"

section \<open>A campaign of one order\<close>

text \<open>The store of the specification's example: order \<open>A100\<close>, not played.\<close>

definition seeded :: store where
  "seeded =
     \<lparr>orderNumbers = [(''A100'', [''orderNumber'' \<mapsto> JStr ''A100'', ''hasPlayed'' \<mapsto> JBool False])],
      drawResults = []\<rparr>"

definition request :: "string \<Rightarrow> string \<Rightarrow> obj" where
  "request n r = [''orderNumber'' \<mapsto> JStr n, ''drawResult'' \<mapsto> JStr r]"

text \<open>A store that answers every call, at time 7; one where writing the draw result of
  \<open>A100\<close> fails.\<close>

definition quiet :: env where
  "quiet = \<lparr>now = 7, fails = (\<lambda>op. False), slash_path = (\<lambda>p. None)\<rparr>"

definition set_down :: env where
  "set_down = \<lparr>now = 7, fails = (\<lambda>op. op = OpSet ''A100''), slash_path = (\<lambda>p. None)\<rparr>"

text \<open>A store that answers every call, behind a client that drops the trailing \<open>/\<close> of
  \<open>A100/\<close> and refuses every other path with a \<open>/\<close> (such as \<open>a/b\<close>, which names no
  document of a collection).\<close>

definition slashes :: env where
  "slashes =
     \<lparr>now = 7, fails = (\<lambda>op. False),
      slash_path = (\<lambda>p. if p = ''A100/'' then Some ''A100'' else None)\<rparr>"

text \<open>The store after \<open>A100\<close> has been redeemed at time 7 with \<open>PRIZE1\<close>.\<close>

definition redeemed :: store where
  "redeemed =
     \<lparr>orderNumbers = [(''A100'', [''orderNumber'' \<mapsto> JStr ''A100'', ''hasPlayed'' \<mapsto> JBool True,
         ''drawResult'' \<mapsto> JStr ''PRIZE1''])],
      drawResults = [(''A100'', [''orderNumber'' \<mapsto> JStr ''A100'', ''drawResult'' \<mapsto> JStr ''PRIZE1'',
         ''timestamp'' \<mapsto> JTime 7])]\<rparr>"

text \<open>Two order documents that carry the same order number \<open>A100\<close>, with the given
  \<open>hasPlayed\<close> values, in the order in which the query returns them.\<close>

definition twins :: "bool \<Rightarrow> bool \<Rightarrow> store" where
  "twins p q =
     \<lparr>orderNumbers =
        [(''x1'', [''orderNumber'' \<mapsto> JStr ''A100'', ''hasPlayed'' \<mapsto> JBool p]),
         (''x2'', [''orderNumber'' \<mapsto> JStr ''A100'', ''hasPlayed'' \<mapsto> JBool q])],
      drawResults = []\<rparr>"

section \<open>Facts about the store operations\<close>

text \<open>A request served alone, step by step, does what the handler does.\<close>

lemma run_alone_handler:
  "run_alone e s body = (Done (resp (record_draw_result e s body)), post (record_draw_result e s body))"
  by (auto simp: run_alone_def record_draw_result_def Let_def split: sum.splits option.splits)

text \<open>Two requests, the second one scheduled after the first has been answered: each
  does what the handler does, the second on the store the first left.\<close>

lemma interleave_serial:
  "interleave s [(e1, Begin b1), (e2, Begin b2)] [0, 0, 0, 1, 1, 1] =
     (post (record_draw_result e2 (post (record_draw_result e1 s b1)) b2),
      [(e1, Done (resp (record_draw_result e1 s b1))),
       (e2, Done (resp (record_draw_result e2 (post (record_draw_result e1 s b1)) b2)))])"
proof -
  obtain t1 s1 where a1: "record_step e1 s (Begin b1) = (t1, s1)" by force
  obtain t2 s2 where a2: "record_step e1 s1 t1 = (t2, s2)" by force
  obtain t3 s3 where a3: "record_step e1 s2 t2 = (t3, s3)" by force
  obtain u1 r1 where b1: "record_step e2 s3 (Begin b2) = (u1, r1)" by force
  obtain u2 r2 where b2: "record_step e2 r1 u1 = (u2, r2)" by force
  obtain u3 r3 where b3: "record_step e2 r2 u2 = (u3, r3)" by force
  have A: "run_alone e1 s b1 = (t3, s3)" by (simp add: run_alone_def a1 a2 a3 del: record_step.simps)
  have B: "run_alone e2 s3 b2 = (u3, r3)" by (simp add: run_alone_def b1 b2 b3 del: record_step.simps)
  have "interleave s [(e1, Begin b1), (e2, Begin b2)] [0, 0, 0, 1, 1, 1] = (r3, [(e1, t3), (e2, u3)])"
    by (simp add: a1 a2 a3 b1 b2 b3 del: record_step.simps)
  with A B show ?thesis by (simp add: run_alone_handler)
qed

lemma where_eq_no_key:
  "keyed_by_field c \<Longrightarrow> k \<notin> fst ` set c \<Longrightarrow> where_eq c ''orderNumber'' (JStr k) = []"
  by (induction c) (auto simp: keyed_by_field_def where_eq_def)

lemma where_eq_present:
  "unique_ids c \<Longrightarrow> keyed_by_field c \<Longrightarrow> map_of c k = Some d \<Longrightarrow>
     where_eq c ''orderNumber'' (JStr k) = [(k, d)]"
proof (induction c)
  case Nil
  then show ?case by simp
next
  case (Cons p c)
  obtain k' d' where p: "p = (k', d')" by (cases p)
  from Cons.prems have kf: "keyed_by_field c" and u: "unique_ids c" and f: "d' ''orderNumber'' = Some (JStr k')"
    and fresh: "k' \<notin> fst ` set c"
    by (auto simp: keyed_by_field_def unique_ids_def p)
  show ?case
  proof (cases "k' = k")
    case True
    with Cons.prems p have "d' = d" by simp
    moreover have "where_eq c ''orderNumber'' (JStr k) = []"
      using where_eq_no_key [OF kf] fresh True by simp
    ultimately show ?thesis using f True p by (simp add: where_eq_def)
  next
    case False
    with Cons.prems p have "map_of c k = Some d" by simp
    from Cons.IH [OF u kf this] show ?thesis using False f p by (simp add: where_eq_def)
  qed
qed

lemma update_doc_map_of:
  "map_of c k = Some d \<Longrightarrow>
     \<exists>c'. update_doc c k u = Some c' \<and> map_of c' = (map_of c)(k \<mapsto> d ++ u)"
  by (induction c) (auto split: if_splits simp: fun_upd_twist)

lemma count_keys_set_doc:
  "count_list (map fst (set_doc c k d)) n =
     (if n = k \<and> k \<notin> fst ` set c then 1 else count_list (map fst c) n)"
  by (auto simp: set_doc_def update_keys)

lemma get_set_doc: "get_doc (set_doc c k d) = (get_doc c)(k \<mapsto> d)"
  by (rule ext) (simp add: get_doc_def set_doc_def update_conv')

lemma doc_ref_valid: "valid_id n \<Longrightarrow> doc_ref e (JStr n) = Inr n"
  by (simp add: doc_ref_def valid_id_def)

lemma get_present: "body p = Some v \<Longrightarrow> get_field body p = v"
  by (simp add: get_field_def)

lemma played_fields:
  "(d ++ played r) ''hasPlayed'' = Some (JBool True)" "(d ++ played r) ''drawResult'' = Some r"
  by (simp_all add: played_def)

text \<open>The record handler on an order that is there and not played.\<close>

lemma record_unplayed:
  assumes "valid_id n" and "get_doc (orderNumbers s) n = Some d"
    and "\<not> truthy (get_field d ''hasPlayed'')"
    and "body ''orderNumber'' = Some (JStr n)" and "body ''drawResult'' = Some r" and "truthy r"
  shows "\<exists>c. update_doc (orderNumbers s) n (played r) = Some c
           \<and> get_doc c = (get_doc (orderNumbers s))(n \<mapsto> d ++ played r)
           \<and> record_draw_result e s body =
               (if fails e (OpGet n) then
                  \<lparr>resp = internal_error (Failed (OpGet n)), post = s, trace = [OpGet n]\<rparr>
                else if fails e (OpUpdate n) then
                  \<lparr>resp = internal_error (Failed (OpUpdate n)), post = s,
                   trace = [OpGet n, OpUpdate n]\<rparr>
                else if fails e (OpSet n) then
                  \<lparr>resp = internal_error (Failed (OpSet n)), post = s\<lparr>orderNumbers := c\<rparr>,
                   trace = [OpGet n, OpUpdate n, OpSet n]\<rparr>
                else
                  \<lparr>resp = ok_message msg_recorded,
                   post = s\<lparr>orderNumbers := c,
                     drawResults := set_doc (drawResults s) n (draw_record e (JStr n) r)\<rparr>,
                   trace = [OpGet n, OpUpdate n, OpSet n]\<rparr>)"
proof -
  from assms(2) obtain c where c: "update_doc (orderNumbers s) n (played r) = Some c"
    and m: "map_of c = (map_of (orderNumbers s))(n \<mapsto> d ++ played r)"
    using update_doc_map_of [of "orderNumbers s" n d "played r"] by (auto simp: get_doc_def)
  have g: "get_doc c = (get_doc (orderNumbers s))(n \<mapsto> d ++ played r)"
    using m by (auto simp: get_doc_def fun_eq_iff)
  have n: "n \<noteq> []" using assms(1) by (simp add: valid_id_def)
  show ?thesis
    using c g assms n
    by (simp add: record_draw_result_def get_present doc_ref_valid)
qed

lemma record_played:
  assumes "valid_id n" and "get_doc (orderNumbers s) n = Some d"
    and "truthy (get_field d ''hasPlayed'')"
    and "body ''orderNumber'' = Some (JStr n)" and "truthy (get_field body ''drawResult'')"
    and "\<not> fails e (OpGet n)"
  shows "record_draw_result e s body =
           \<lparr>resp = fail_message 400 msg_already_used, post = s, trace = [OpGet n]\<rparr>"
proof -
  have n: "n \<noteq> []" using assms(1) by (simp add: valid_id_def)
  show ?thesis using assms n
    by (simp add: record_draw_result_def get_present doc_ref_valid)
qed

lemma seeded_A100:
  "get_doc (orderNumbers seeded) ''A100'' =
     Some [''orderNumber'' \<mapsto> JStr ''A100'', ''hasPlayed'' \<mapsto> JBool False]"
  by (simp add: seeded_def get_doc_def)

lemma where_eq_empty_iff:
  "keyed_by_field c \<Longrightarrow> (where_eq c ''orderNumber'' (JStr n) = []) = (n \<notin> fst ` set c)"
  by (induction c) (auto simp: keyed_by_field_def where_eq_def)

lemma check_status_404:
  "(status (resp (check_order_number e s body)) = 404) =
     (truthy (get_field body ''orderNumber'') \<and> \<not> fails e (OpQuery (get_field body ''orderNumber''))
      \<and> where_eq (orderNumbers s) ''orderNumber'' (get_field body ''orderNumber'') = [])"
  by (auto simp: check_order_number_def Let_def fail_error_def fail_message_def ok_message_def
      internal_error_def split: list.splits)

lemma record_status_404:
  "(status (resp (record_draw_result e s body)) = 404) =
     (truthy (get_field body ''orderNumber'') \<and> truthy (get_field body ''drawResult'')
      \<and> (\<exists>k. doc_ref e (get_field body ''orderNumber'') = Inr k \<and> \<not> fails e (OpGet k)
             \<and> get_doc (orderNumbers s) k = None))"
  by (auto simp: record_draw_result_def Let_def fail_error_def fail_message_def ok_message_def
      internal_error_def split: sum.splits option.splits)

lemma record_calls_played:
  assumes "valid_id n" and "get_doc (orderNumbers s) n = Some d"
    and "truthy (get_field d ''hasPlayed'')"
    and "\<forall>(e, body) \<in> set calls. body ''orderNumber'' = Some (JStr n)
           \<and> truthy (get_field body ''drawResult'') \<and> \<not> fails e (OpGet n)"
  shows "record_calls s calls = (replicate (length calls) (fail_message 400 msg_already_used), s)"
  using assms(4)
proof (induction calls)
  case Nil
  then show ?case by simp
next
  case (Cons c calls)
  obtain e body where c: "c = (e, body)" by (cases c)
  from Cons.prems c have "record_draw_result e s body =
      \<lparr>resp = fail_message 400 msg_already_used, post = s, trace = [OpGet n]\<rparr>"
    using record_played [OF assms(1-3)] by auto
  moreover have "record_calls s calls = (replicate (length calls) (fail_message 400 msg_already_used), s)"
    using Cons by simp
  ultimately show ?case by (simp add: c)
qed

section \<open>Requests with a missing field\<close>

lemma get_absent: "body p = None \<Longrightarrow> get_field body p = JUndefined"
  by (simp add: get_field_def)

text \<open>
  C8. A request that lacks a required field (the body \<open>{}\<close> to either endpoint, or a record
  request without \<open>orderNumber\<close> or without \<open>drawResult\<close>) is answered 400 with
  \<open>success: false\<close>, makes no store call at all, and leaves the store as it was.
\<close>

theorem missing_field_no_store_access:
  "(body ''orderNumber'' = None \<longrightarrow>
      check_order_number e s body =
        \<lparr>resp = fail_error 400 (Lit msg_required), post = s, trace = []\<rparr>)
   \<and> (body ''orderNumber'' = None \<or> body ''drawResult'' = None \<longrightarrow>
      record_draw_result e s body =
        \<lparr>resp = fail_error 400 (Lit msg_both_required), post = s, trace = []\<rparr>)
   \<and> status (fail_error 400 t) = 400 \<and> \<not> success (fail_error 400 t)"
  by (auto simp: check_order_number_def record_draw_result_def get_absent fail_error_def)

theorem missing_field_no_store_access_witness:
  "check_order_number quiet seeded Map.empty =
     \<lparr>resp = fail_error 400 (Lit msg_required), post = seeded, trace = []\<rparr>
   \<and> record_draw_result quiet seeded Map.empty =
     \<lparr>resp = fail_error 400 (Lit msg_both_required), post = seeded, trace = []\<rparr>
   \<and> record_draw_result quiet seeded [''orderNumber'' \<mapsto> JStr ''A100''] =
     \<lparr>resp = fail_error 400 (Lit msg_both_required), post = seeded, trace = []\<rparr>
   \<and> record_draw_result quiet seeded [''drawResult'' \<mapsto> JStr ''PRIZE1''] =
     \<lparr>resp = fail_error 400 (Lit msg_both_required), post = seeded, trace = []\<rparr>"
  using missing_field_no_store_access [of Map.empty quiet seeded]
    missing_field_no_store_access [of "[''orderNumber'' \<mapsto> JStr ''A100'']" quiet seeded]
    missing_field_no_store_access [of "[''drawResult'' \<mapsto> JStr ''PRIZE1'']" quiet seeded]
  by simp

section \<open>Requests with a falsy field\<close>

text \<open>
  C10. A field that is present but falsy counts as missing: a request whose
  \<open>orderNumber\<close> is falsy (the empty string) is answered 400 with \<open>success: false\<close> by
  both endpoints, and so is a record request whose \<open>drawResult\<close> is falsy (\<open>0\<close>, \<open>false\<close>,
  the empty string, \<open>null\<close>); the outcome is the one of the request with the empty body.
\<close>

theorem falsy_field_rejected:
  "(body ''orderNumber'' = Some v \<and> \<not> truthy v \<longrightarrow>
      check_order_number e s body =
        \<lparr>resp = fail_error 400 (Lit msg_required), post = s, trace = []\<rparr>
      \<and> record_draw_result e s body =
        \<lparr>resp = fail_error 400 (Lit msg_both_required), post = s, trace = []\<rparr>)
   \<and> (body ''drawResult'' = Some v \<and> \<not> truthy v \<longrightarrow>
      record_draw_result e s body =
        \<lparr>resp = fail_error 400 (Lit msg_both_required), post = s, trace = []\<rparr>)
   \<and> \<not> truthy (JStr []) \<and> \<not> truthy (JNum 0) \<and> \<not> truthy (JBool False) \<and> \<not> truthy JNull
   \<and> check_order_number e s Map.empty =
        \<lparr>resp = fail_error 400 (Lit msg_required), post = s, trace = []\<rparr>
   \<and> record_draw_result e s Map.empty =
        \<lparr>resp = fail_error 400 (Lit msg_both_required), post = s, trace = []\<rparr>
   \<and> status (fail_error 400 t) = 400 \<and> \<not> success (fail_error 400 t)"
  by (auto simp: check_order_number_def record_draw_result_def get_field_def fail_error_def)

theorem falsy_field_rejected_witness:
  "check_order_number quiet seeded [''orderNumber'' \<mapsto> JStr ''''] =
     \<lparr>resp = fail_error 400 (Lit msg_required), post = seeded, trace = []\<rparr>
   \<and> record_draw_result quiet seeded [''orderNumber'' \<mapsto> JStr '''', ''drawResult'' \<mapsto> JStr ''PRIZE1''] =
     \<lparr>resp = fail_error 400 (Lit msg_both_required), post = seeded, trace = []\<rparr>
   \<and> record_draw_result quiet seeded [''orderNumber'' \<mapsto> JStr ''A100'', ''drawResult'' \<mapsto> JNum 0] =
     \<lparr>resp = fail_error 400 (Lit msg_both_required), post = seeded, trace = []\<rparr>
   \<and> record_draw_result quiet seeded [''orderNumber'' \<mapsto> JStr ''A100'', ''drawResult'' \<mapsto> JBool False] =
     \<lparr>resp = fail_error 400 (Lit msg_both_required), post = seeded, trace = []\<rparr>
   \<and> record_draw_result quiet seeded [''orderNumber'' \<mapsto> JStr ''A100'', ''drawResult'' \<mapsto> JStr ''''] =
     \<lparr>resp = fail_error 400 (Lit msg_both_required), post = seeded, trace = []\<rparr>"
  using falsy_field_rejected [where body = "[''orderNumber'' \<mapsto> JStr '''']"
      and v = "JStr ''''" and e = quiet and s = seeded]
    falsy_field_rejected [where body = "[''orderNumber'' \<mapsto> JStr '''', ''drawResult'' \<mapsto> JStr ''PRIZE1'']"
      and v = "JStr ''''" and e = quiet and s = seeded]
    falsy_field_rejected [where body = "[''orderNumber'' \<mapsto> JStr ''A100'', ''drawResult'' \<mapsto> JNum 0]"
      and v = "JNum 0" and e = quiet and s = seeded]
    falsy_field_rejected [where body = "[''orderNumber'' \<mapsto> JStr ''A100'', ''drawResult'' \<mapsto> JBool False]"
      and v = "JBool False" and e = quiet and s = seeded]
    falsy_field_rejected [where body = "[''orderNumber'' \<mapsto> JStr ''A100'', ''drawResult'' \<mapsto> JStr '''']"
      and v = "JStr ''''" and e = quiet and s = seeded]
  by simp

section \<open>Validating and recording an order that is in the store\<close>

text \<open>
  C7. The order documents have distinct ids and carry their id in the \<open>orderNumber\<close>
  field. For an order number that is in the store and not played, validate answers 200
  with \<open>success: true\<close>; its only store call is the query, and the store is unchanged.
\<close>

theorem unplayed_order_valid:
  assumes ids: "unique_ids (orderNumbers s)" and kf: "keyed_by_field (orderNumbers s)"
      and id: "valid_id n"
      and present: "get_doc (orderNumbers s) n = Some d"
      and unplayed: "\<not> truthy (get_field d ''hasPlayed'')"
      and body: "body ''orderNumber'' = Some (JStr n)"
      and nf: "\<not> fails e (OpQuery (JStr n))"
  shows "check_order_number e s body =
           \<lparr>resp = ok_message msg_valid, post = s, trace = [OpQuery (JStr n)]\<rparr>
       \<and> status (ok_message msg_valid) = 200 \<and> success (ok_message msg_valid)
       \<and> \<not> is_write (OpQuery (JStr n))"
proof -
  have n: "n \<noteq> []" using id by (simp add: valid_id_def)
  have g: "get_field body ''orderNumber'' = JStr n" using body by (simp add: get_field_def)
  have w: "where_eq (orderNumbers s) ''orderNumber'' (JStr n) = [(n, d)]"
    using where_eq_present [OF ids kf] present by (simp add: get_doc_def)
  show ?thesis
    using n w unplayed nf
    by (simp add: check_order_number_def g ok_message_def)
qed

theorem unplayed_order_valid_witness:
  "unique_ids (orderNumbers seeded) \<and> keyed_by_field (orderNumbers seeded) \<and> valid_id ''A100''
   \<and> check_order_number quiet seeded [''orderNumber'' \<mapsto> JStr ''A100''] =
       \<lparr>resp = ok_message msg_valid, post = seeded, trace = [OpQuery (JStr ''A100'')]\<rparr>"
proof -
  have h1: "unique_ids (orderNumbers seeded)" by (simp add: unique_ids_def seeded_def)
  have h2: "keyed_by_field (orderNumbers seeded)" by (simp add: keyed_by_field_def seeded_def)
  have h3: "valid_id ''A100''" by (simp add: valid_id_def)
  have h5: "\<not> truthy (get_field [''orderNumber'' \<mapsto> JStr ''A100'', ''hasPlayed'' \<mapsto> JBool False] ''hasPlayed'')"
    by (simp add: get_field_def)
  have h6: "[''orderNumber'' \<mapsto> JStr ''A100''] ''orderNumber'' = Some (JStr ''A100'')"
    by simp
  have nf: "\<not> fails quiet op" for op by (simp add: quiet_def)
  from unplayed_order_valid [where body = "[''orderNumber'' \<mapsto> JStr ''A100'']" and e = quiet,
      OF h1 h2 h3 seeded_A100 h5 h6 nf] h1 h2 h3
  show ?thesis by simp
qed

text \<open>
  C6. For an order number that is in the store and played, validate and record both
  answer 400 with \<open>success: false\<close> (AlreadyUsed); the only store call of record is the
  read of the order document, and the store is unchanged.
\<close>

theorem played_order_rejected:
  assumes ids: "unique_ids (orderNumbers s)" and kf: "keyed_by_field (orderNumbers s)"
      and id: "valid_id n"
      and present: "get_doc (orderNumbers s) n = Some d"
      and used: "truthy (get_field d ''hasPlayed'')"
      and body: "body ''orderNumber'' = Some (JStr n)"
      and r: "truthy (get_field body ''drawResult'')"
      and nf: "\<not> fails e (OpQuery (JStr n))" "\<not> fails e (OpGet n)"
  shows "check_order_number e s body =
           \<lparr>resp = fail_message 400 msg_used, post = s, trace = [OpQuery (JStr n)]\<rparr>
       \<and> record_draw_result e s body =
           \<lparr>resp = fail_message 400 msg_already_used, post = s, trace = [OpGet n]\<rparr>
       \<and> status (fail_message 400 m) = 400 \<and> \<not> success (fail_message 400 m)
       \<and> \<not> is_write (OpGet n)"
proof -
  have n: "n \<noteq> []" using id by (simp add: valid_id_def)
  have g: "get_field body ''orderNumber'' = JStr n" using body by (simp add: get_field_def)
  have w: "where_eq (orderNumbers s) ''orderNumber'' (JStr n) = [(n, d)]"
    using where_eq_present [OF ids kf] present by (simp add: get_doc_def)
  have "check_order_number e s body =
           \<lparr>resp = fail_message 400 msg_used, post = s, trace = [OpQuery (JStr n)]\<rparr>"
    using n w used nf by (simp add: check_order_number_def g)
  moreover note record_played [OF id present used body r nf(2)]
  ultimately show ?thesis by (simp add: fail_message_def)
qed

theorem played_order_rejected_witness:
  "unique_ids (orderNumbers redeemed) \<and> keyed_by_field (orderNumbers redeemed) \<and> valid_id ''A100''
   \<and> check_order_number quiet redeemed (request ''A100'' ''PRIZE2'') =
           \<lparr>resp = fail_message 400 msg_used, post = redeemed, trace = [OpQuery (JStr ''A100'')]\<rparr>
   \<and> record_draw_result quiet redeemed (request ''A100'' ''PRIZE2'') =
           \<lparr>resp = fail_message 400 msg_already_used, post = redeemed, trace = [OpGet ''A100'']\<rparr>"
proof -
  have h1: "unique_ids (orderNumbers redeemed)" by (simp add: unique_ids_def redeemed_def)
  have h2: "keyed_by_field (orderNumbers redeemed)" by (simp add: keyed_by_field_def redeemed_def)
  have h3: "valid_id ''A100''" by (simp add: valid_id_def)
  have h4: "get_doc (orderNumbers redeemed) ''A100'' =
     Some [''orderNumber'' \<mapsto> JStr ''A100'', ''hasPlayed'' \<mapsto> JBool True,
         ''drawResult'' \<mapsto> JStr ''PRIZE1'']"
    by (simp add: redeemed_def get_doc_def)
  have h5: "truthy (get_field [''orderNumber'' \<mapsto> JStr ''A100'', ''hasPlayed'' \<mapsto> JBool True,
         ''drawResult'' \<mapsto> JStr ''PRIZE1''] ''hasPlayed'')"
    by (simp add: get_field_def)
  have h6: "request ''A100'' ''PRIZE2'' ''orderNumber'' = Some (JStr ''A100'')"
    and h7: "truthy (get_field (request ''A100'' ''PRIZE2'') ''drawResult'')"
    by (simp_all add: request_def get_field_def)
  have nf: "\<not> fails quiet op" for op by (simp add: quiet_def)
  from played_order_rejected [OF h1 h2 h3 h4 h5 h6 h7 nf nf] h1 h2 h3 show ?thesis by simp
qed

text \<open>
  C9. When the query of validate returns documents, the answer depends on the first one
  only: AlreadyUsed if its \<open>hasPlayed\<close> is truthy, success if not, whatever the other
  documents with the same \<open>orderNumber\<close> field hold.
\<close>

theorem first_match_decides:
  assumes "truthy (get_field body ''orderNumber'')"
      and "\<not> fails e (OpQuery (get_field body ''orderNumber''))"
      and "where_eq (orderNumbers s) ''orderNumber'' (get_field body ''orderNumber'') = (k, d) # others"
  shows "resp (check_order_number e s body) =
           (if truthy (get_field d ''hasPlayed'') then fail_message 400 msg_used
            else ok_message msg_valid)"
  using assms by (simp add: check_order_number_def)

theorem first_match_decides_witness:
  "resp (check_order_number quiet (twins False True) [''orderNumber'' \<mapsto> JStr ''A100'']) =
     ok_message msg_valid
   \<and> resp (check_order_number quiet (twins True False) [''orderNumber'' \<mapsto> JStr ''A100'']) =
     fail_message 400 msg_used"
proof -
  let ?b = "[''orderNumber'' \<mapsto> JStr ''A100'']"
  have g: "get_field ?b ''orderNumber'' = JStr ''A100''" by (simp add: get_field_def)
  have t: "truthy (get_field ?b ''orderNumber'')" by (simp add: g)
  have nf: "\<not> fails quiet op" for op by (simp add: quiet_def)
  have w: "where_eq (orderNumbers (twins p q)) ''orderNumber'' (get_field ?b ''orderNumber'') =
      (''x1'', [''orderNumber'' \<mapsto> JStr ''A100'', ''hasPlayed'' \<mapsto> JBool p])
      # [(''x2'', [''orderNumber'' \<mapsto> JStr ''A100'', ''hasPlayed'' \<mapsto> JBool q])]" for p q
    by (simp add: g where_eq_def twins_def)
  from first_match_decides [OF t nf w, of False True] first_match_decides [OF t nf w, of True False]
  show ?thesis by (simp add: get_field_def)
qed

text \<open>
  C5 (as amended). Validate searches the collection for the \<open>orderNumber\<close> field, record
  addresses the document by its id. When every order document carries its id in its
  \<open>orderNumber\<close> field, the two agree on the order numbers that are document ids: for an
  order number \<open>n\<close> without \<open>/\<close>, validate answers NotFound exactly when record does,
  which is exactly when \<open>n\<close> is not empty and no document has the id \<open>n\<close>.
\<close>

theorem lookup_agreement:
  assumes kf: "keyed_by_field (orderNumbers s)"
      and slash: "CHR ''/'' \<notin> set n"
      and body: "body ''orderNumber'' = Some (JStr n)"
      and r: "truthy (get_field body ''drawResult'')"
      and nf: "\<not> fails e (OpQuery (JStr n))" "\<not> fails e (OpGet n)"
  shows "(status (resp (check_order_number e s body)) = 404) =
           (status (resp (record_draw_result e s body)) = 404)
       \<and> (status (resp (check_order_number e s body)) = 404) =
           (n \<noteq> [] \<and> get_doc (orderNumbers s) n = None)"
proof -
  have g: "get_field body ''orderNumber'' = JStr n" using body by (rule get_present)
  have v: "(status (resp (check_order_number e s body)) = 404) =
           (n \<noteq> [] \<and> get_doc (orderNumbers s) n = None)"
    using nf where_eq_empty_iff [OF kf, of n]
    by (simp add: check_status_404 g get_doc_def map_of_eq_None_iff)
  have d: "doc_ref e (JStr n) = Inr k \<longleftrightarrow> n \<noteq> [] \<and> k = n" for k
    using slash by (auto simp: doc_ref_def)
  have w: "(status (resp (record_draw_result e s body)) = 404) =
           (n \<noteq> [] \<and> get_doc (orderNumbers s) n = None)"
    using nf r by (auto simp: record_status_404 g d)
  from v w show ?thesis by simp
qed

theorem lookup_agreement_witness:
  "keyed_by_field (orderNumbers seeded)
   \<and> status (resp (check_order_number quiet seeded (request ''B200'' ''PRIZE1''))) = 404
   \<and> status (resp (record_draw_result quiet seeded (request ''B200'' ''PRIZE1''))) = 404
   \<and> status (resp (check_order_number quiet seeded (request ''A100'' ''PRIZE1''))) \<noteq> 404
   \<and> status (resp (record_draw_result quiet seeded (request ''A100'' ''PRIZE1''))) \<noteq> 404"
proof -
  have kf: "keyed_by_field (orderNumbers seeded)"
    by (simp add: keyed_by_field_def seeded_def)
  have sl: "CHR ''/'' \<notin> set ''B200''" "CHR ''/'' \<notin> set ''A100''" by simp_all
  have b: "request n r ''orderNumber'' = Some (JStr n)" 
    and r: "truthy (get_field (request n ''PRIZE1'') ''drawResult'')" for n r
    by (simp_all add: request_def get_field_def)
  have nf: "\<not> fails quiet op" for op by (simp add: quiet_def)
  have g: "get_doc (orderNumbers seeded) ''B200'' = None"
    by (simp add: seeded_def get_doc_def)
  from lookup_agreement [OF kf sl(1) b r nf nf] lookup_agreement [OF kf sl(2) b r nf nf]
    g seeded_A100 kf
  show ?thesis by auto
qed

text \<open>An order number with a \<open>/\<close> is a path to the client, not an id. Validate finds no
  document with the field \<open>a/b\<close> or \<open>A100/\<close> and answers NotFound; record answers 500
  where the client refuses the path, and redeems \<open>A100\<close> where the client resolves the
  path to it.\<close>

theorem lookup_disagreement_on_slash:
  "keyed_by_field (orderNumbers seeded)
   \<and> status (resp (check_order_number slashes seeded (request ''a/b'' ''PRIZE1''))) = 404
   \<and> status (resp (record_draw_result slashes seeded (request ''a/b'' ''PRIZE1''))) = 500
   \<and> status (resp (check_order_number slashes seeded (request ''A100/'' ''PRIZE1''))) = 404
   \<and> status (resp (record_draw_result slashes seeded (request ''A100/'' ''PRIZE1''))) = 200
   \<and> has_played (post (record_draw_result slashes seeded (request ''A100/'' ''PRIZE1''))) ''A100''"
proof -
  have kf: "keyed_by_field (orderNumbers seeded)"
    by (simp add: keyed_by_field_def seeded_def)
  have v1: "status (resp (check_order_number slashes seeded (request ''a/b'' ''PRIZE1''))) = 404"
    and v2: "status (resp (check_order_number slashes seeded (request ''A100/'' ''PRIZE1''))) = 404"
    by (simp_all add: Let_def check_order_number_def request_def get_field_def slashes_def
        seeded_def where_eq_def fail_message_def)
  have r1: "status (resp (record_draw_result slashes seeded (request ''a/b'' ''PRIZE1''))) = 500"
    by (simp add: Let_def record_draw_result_def request_def get_field_def doc_ref_def
        slashes_def internal_error_def fail_error_def)
  have r2: "status (resp (record_draw_result slashes seeded (request ''A100/'' ''PRIZE1''))) = 200"
    and r3: "has_played (post (record_draw_result slashes seeded (request ''A100/'' ''PRIZE1''))) ''A100''"
    by (simp_all add: Let_def has_played_def record_draw_result_def request_def get_field_def
        doc_ref_def slashes_def seeded_def get_doc_def played_def ok_message_def)
  from kf v1 v2 r1 r2 r3 show ?thesis by simp
qed

section \<open>A successful record\<close>

text \<open>
  C1. An order number \<open>n\<close> is in the store, not played; the draw result \<open>r\<close> is not empty.
  When \<open>record(n, r)\<close> succeeds, the answer is 200 with \<open>success: true\<close>, the order
  document of \<open>n\<close> has \<open>hasPlayed = true\<close> and \<open>drawResult = r\<close>, and there is exactly one
  draw-result document of \<open>n\<close>, holding \<open>orderNumber = n\<close>, \<open>drawResult = r\<close> and the
  server's timestamp. (The ids of the draw results are distinct before the call: at most
  one of them is \<open>n\<close>.)
\<close>

theorem record_success_effects:
  assumes ids: "draw_count s n \<le> 1"
      and id: "valid_id n"
      and present: "get_doc (orderNumbers s) n = Some d"
      and unplayed: "\<not> truthy (get_field d ''hasPlayed'')"
      and body: "body ''orderNumber'' = Some (JStr n)" "body ''drawResult'' = Some r"
      and r: "truthy r"
      and ok: "status (resp (record_draw_result e s body)) = 200"
  shows "resp (record_draw_result e s body) = ok_message msg_recorded
       \<and> success (resp (record_draw_result e s body))
       \<and> (\<exists>d'. get_doc (orderNumbers (post (record_draw_result e s body))) n = Some d'
              \<and> d' ''hasPlayed'' = Some (JBool True) \<and> d' ''drawResult'' = Some r)
       \<and> draw_count (post (record_draw_result e s body)) n = 1
       \<and> get_doc (drawResults (post (record_draw_result e s body))) n =
           Some [''orderNumber'' \<mapsto> JStr n, ''drawResult'' \<mapsto> r, ''timestamp'' \<mapsto> JTime (now e)]"
proof -
  from record_unplayed [OF id present unplayed body r, of e]
  obtain c where g: "get_doc c = (get_doc (orderNumbers s))(n \<mapsto> d ++ played r)"
    and out: "record_draw_result e s body =
               (if fails e (OpGet n) then
                  \<lparr>resp = internal_error (Failed (OpGet n)), post = s, trace = [OpGet n]\<rparr>
                else if fails e (OpUpdate n) then
                  \<lparr>resp = internal_error (Failed (OpUpdate n)), post = s,
                   trace = [OpGet n, OpUpdate n]\<rparr>
                else if fails e (OpSet n) then
                  \<lparr>resp = internal_error (Failed (OpSet n)), post = s\<lparr>orderNumbers := c\<rparr>,
                   trace = [OpGet n, OpUpdate n, OpSet n]\<rparr>
                else
                  \<lparr>resp = ok_message msg_recorded,
                   post = s\<lparr>orderNumbers := c,
                     drawResults := set_doc (drawResults s) n (draw_record e (JStr n) r)\<rparr>,
                   trace = [OpGet n, OpUpdate n, OpSet n]\<rparr>)"
    by blast
  from ok out have nofail: "\<not> fails e (OpGet n)" "\<not> fails e (OpUpdate n)" "\<not> fails e (OpSet n)"
    by (auto simp: internal_error_def fail_error_def split: if_splits)
  with out have eq: "record_draw_result e s body =
      \<lparr>resp = ok_message msg_recorded,
       post = s\<lparr>orderNumbers := c,
         drawResults := set_doc (drawResults s) n (draw_record e (JStr n) r)\<rparr>,
       trace = [OpGet n, OpUpdate n, OpSet n]\<rparr>"
    by simp
  have 1: "resp (record_draw_result e s body) = ok_message msg_recorded"
    by (simp add: eq)
  have 2: "success (resp (record_draw_result e s body))"
    by (simp add: eq ok_message_def)
  have 3: "\<exists>d'. get_doc (orderNumbers (post (record_draw_result e s body))) n = Some d'
              \<and> d' ''hasPlayed'' = Some (JBool True) \<and> d' ''drawResult'' = Some r"
    by (simp add: eq g played_fields)
  have 4: "draw_count (post (record_draw_result e s body)) n = 1"
  proof (cases "n \<in> fst ` set (drawResults s)")
    case True
    then have "count_list (map fst (drawResults s)) n \<noteq> 0"
      by (simp add: count_list_0_iff)
    with ids True show ?thesis
      by (simp add: eq draw_count_def count_keys_set_doc)
  next
    case False
    then show ?thesis by (simp add: eq draw_count_def count_keys_set_doc)
  qed
  have 5: "get_doc (drawResults (post (record_draw_result e s body))) n =
           Some [''orderNumber'' \<mapsto> JStr n, ''drawResult'' \<mapsto> r, ''timestamp'' \<mapsto> JTime (now e)]"
    by (simp add: eq get_set_doc draw_record_def)
  from 1 2 3 4 5 show ?thesis by blast
qed

theorem record_success_effects_witness:
  "draw_count seeded ''A100'' \<le> 1 \<and> valid_id ''A100''
   \<and> status (resp (record_draw_result quiet seeded (request ''A100'' ''PRIZE1''))) = 200
   \<and> success (resp (record_draw_result quiet seeded (request ''A100'' ''PRIZE1'')))
   \<and> draw_count (post (record_draw_result quiet seeded (request ''A100'' ''PRIZE1''))) ''A100'' = 1
   \<and> get_doc (drawResults (post (record_draw_result quiet seeded (request ''A100'' ''PRIZE1'')))) ''A100'' =
        Some [''orderNumber'' \<mapsto> JStr ''A100'', ''drawResult'' \<mapsto> JStr ''PRIZE1'',
              ''timestamp'' \<mapsto> JTime 7]"
proof -
  have h1: "draw_count seeded ''A100'' \<le> 1" by (simp add: draw_count_def seeded_def)
  have h2: "valid_id ''A100''" by (simp add: valid_id_def)
  have h3: "\<not> truthy (get_field [''orderNumber'' \<mapsto> JStr ''A100'', ''hasPlayed'' \<mapsto> JBool False] ''hasPlayed'')"
    by (simp add: get_field_def)
  have h4: "request ''A100'' ''PRIZE1'' ''orderNumber'' = Some (JStr ''A100'')"
    and h5: "request ''A100'' ''PRIZE1'' ''drawResult'' = Some (JStr ''PRIZE1'')"
    by (simp_all add: request_def)
  have h6: "truthy (JStr ''PRIZE1'')" by simp
  have h7: "status (resp (record_draw_result quiet seeded (request ''A100'' ''PRIZE1''))) = 200"
    by (simp add: Let_def record_draw_result_def request_def get_field_def doc_ref_def quiet_def
        seeded_def get_doc_def ok_message_def)
  have h8: "now quiet = 7" by (simp add: quiet_def)
  from record_success_effects [OF h1 h2 seeded_A100 h3 h4 h5 h6 h7] h1 h2 h7
  show ?thesis by (simp add: h8 ok_message_def)
qed

section \<open>The two writes of record\<close>

text \<open>
  C3 (as amended). Record writes twice, in this order: it updates the order document
  (\<open>hasPlayed = true\<close> and the draw result), then creates the draw-result document under
  the same id, with the draw result and the server's timestamp. It answers success only
  when both writes are done. When it does not answer success, the store is unchanged,
  except when the store fails on the second write: then the answer is 500 and the update
  of the order document stays.
\<close>

theorem record_writes_in_order:
  "(status (resp (record_draw_result e s body)) = 200 \<longrightarrow>
      (\<exists>k c. update_doc (orderNumbers s) k (played (get_field body ''drawResult'')) = Some c
         \<and> post (record_draw_result e s body) =
             s\<lparr>orderNumbers := c,
               drawResults := set_doc (drawResults s) k
                 (draw_record e (get_field body ''orderNumber'') (get_field body ''drawResult''))\<rparr>
         \<and> trace (record_draw_result e s body) = [OpGet k, OpUpdate k, OpSet k]))
   \<and> (status (resp (record_draw_result e s body)) \<noteq> 200 \<longrightarrow>
        post (record_draw_result e s body) = s
        \<or> (\<exists>k c. fails e (OpSet k)
             \<and> resp (record_draw_result e s body) = internal_error (Failed (OpSet k))
             \<and> update_doc (orderNumbers s) k (played (get_field body ''drawResult'')) = Some c
             \<and> post (record_draw_result e s body) = s\<lparr>orderNumbers := c\<rparr>))"
  by (auto simp: record_draw_result_def Let_def ok_message_def fail_error_def fail_message_def
      internal_error_def split: sum.splits option.splits)

theorem record_writes_in_order_witness:
  "status (resp (record_draw_result quiet seeded (request ''A100'' ''PRIZE1''))) = 200
   \<and> (\<exists>k c. post (record_draw_result quiet seeded (request ''A100'' ''PRIZE1'')) =
             seeded\<lparr>orderNumbers := c,
               drawResults := set_doc (drawResults seeded) k
                 (draw_record quiet (get_field (request ''A100'' ''PRIZE1'') ''orderNumber'')
                    (get_field (request ''A100'' ''PRIZE1'') ''drawResult''))\<rparr>)
   \<and> status (resp (record_draw_result quiet seeded (request ''B200'' ''PRIZE1''))) \<noteq> 200
   \<and> post (record_draw_result quiet seeded (request ''B200'' ''PRIZE1'')) = seeded"
proof -
  have a: "status (resp (record_draw_result quiet seeded (request ''A100'' ''PRIZE1''))) = 200"
    by (simp add: Let_def record_draw_result_def request_def get_field_def doc_ref_def
        quiet_def seeded_def get_doc_def ok_message_def)
  have b: "status (resp (record_draw_result quiet seeded (request ''B200'' ''PRIZE1''))) \<noteq> 200"
    and c: "\<not> fails quiet op" for op
    by (simp_all add: Let_def record_draw_result_def request_def get_field_def doc_ref_def
        quiet_def seeded_def get_doc_def fail_message_def)
  from record_writes_in_order [of quiet seeded "request ''A100'' ''PRIZE1''"]
    record_writes_in_order [of quiet seeded "request ''B200'' ''PRIZE1''"] a b c
  show ?thesis by blast
qed

text \<open>The two writes are not atomic: when the second one fails, record answers 500 and
  the store has changed.\<close>

theorem failed_record_leaves_first_write:
  "status (resp (record_draw_result set_down seeded (request ''A100'' ''PRIZE1''))) = 500
   \<and> post (record_draw_result set_down seeded (request ''A100'' ''PRIZE1'')) \<noteq> seeded
   \<and> has_played (post (record_draw_result set_down seeded (request ''A100'' ''PRIZE1''))) ''A100''
   \<and> drawResults (post (record_draw_result set_down seeded (request ''A100'' ''PRIZE1''))) = []"
proof -
  let ?out = "record_draw_result set_down seeded (request ''A100'' ''PRIZE1'')"
  have a: "status (resp ?out) = 500"
    and b: "has_played (post ?out) ''A100''"
    and c: "drawResults (post ?out) = []"
    by (simp_all add: Let_def has_played_def record_draw_result_def internal_error_def
        fail_error_def request_def get_field_def doc_ref_def set_down_def seeded_def
        get_doc_def played_def)
  have "\<not> has_played seeded ''A100''"
    by (simp add: has_played_def seeded_def get_doc_def)
  with b have "post ?out \<noteq> seeded" by auto
  with a b c show ?thesis by simp
qed

section \<open>The invariant of the data model\<close>

lemma check_post: "post (check_order_number e s body) = s"
  by (simp add: check_order_number_def Let_def split: list.splits)

lemma inv_after_writes:
  assumes inv: "redemption_inv s n"
    and d: "get_doc (orderNumbers s) k = Some d" and u: "\<not> truthy (get_field d ''hasPlayed'')"
    and c: "get_doc c = (get_doc (orderNumbers s))(k \<mapsto> d ++ played r)"
  shows "redemption_inv (s\<lparr>orderNumbers := c, drawResults := set_doc (drawResults s) k x\<rparr>) n"
proof (cases "n = k")
  case True
  from d u have "\<not> has_played s k"
    by (auto simp: has_played_def get_field_def)
  with inv True have "get_doc (drawResults s) k = None"
    by (simp add: redemption_inv_def)
  then have "k \<notin> fst ` set (drawResults s)"
    by (simp add: get_doc_def map_of_eq_None_iff)
  then show ?thesis using True c
    by (simp add: redemption_inv_def draw_count_def count_keys_set_doc get_set_doc
        has_played_def played_fields)
next
  case False
  then show ?thesis using inv c
    by (simp add: redemption_inv_def draw_count_def count_keys_set_doc get_set_doc has_played_def)
qed

lemma update_doc_get:
  "get_doc c k = Some d \<Longrightarrow> update_doc c k u = Some c' \<Longrightarrow> get_doc c' = (get_doc c)(k \<mapsto> d ++ u)"
  using update_doc_map_of [of c k d u] by (auto simp: get_doc_def fun_eq_iff)

text \<open>
  C2 (as amended). For every order number, the invariant (at most one draw-result
  document, and one exactly when the order document has \<open>hasPlayed = true\<close>) is kept by
  every validate request and every keep-alive request, and by every record request unless
  the store fails to write the draw result after the order document has been updated.
\<close>

theorem invariant_kept:
  assumes inv: "redemption_inv s n"
  shows "redemption_inv (post (check_order_number e s body)) n
       \<and> redemption_inv (snd (keep_alive s)) n
       \<and> ((\<forall>k. \<not> fails e (OpSet k)) \<longrightarrow> redemption_inv (post (record_draw_result e s body)) n)"
proof -
  have "redemption_inv (post (record_draw_result e s body)) n" if nf: "\<forall>k. \<not> fails e (OpSet k)"
    using inv nf
    by (auto simp: record_draw_result_def Let_def inv_after_writes update_doc_get
        split: sum.splits option.splits)
  then show ?thesis using inv by (simp add: check_post keep_alive_def)
qed

theorem invariant_kept_witness:
  "redemption_inv seeded ''A100''
   \<and> redemption_inv (post (check_order_number quiet seeded (request ''A100'' ''PRIZE1''))) ''A100''
   \<and> (\<forall>k. \<not> fails quiet (OpSet k))
   \<and> redemption_inv (post (record_draw_result quiet seeded (request ''A100'' ''PRIZE1''))) ''A100''
   \<and> has_played (post (record_draw_result quiet seeded (request ''A100'' ''PRIZE1''))) ''A100''"
proof -
  have h: "redemption_inv seeded ''A100''"
    by (simp add: redemption_inv_def draw_count_def has_played_def seeded_def get_doc_def)
  have q: "\<forall>k. \<not> fails quiet (OpSet k)" by (simp add: quiet_def)
  have p: "has_played (post (record_draw_result quiet seeded (request ''A100'' ''PRIZE1''))) ''A100''"
    by (simp add: Let_def has_played_def record_draw_result_def
      request_def get_field_def doc_ref_def quiet_def seeded_def get_doc_def played_def)
  from invariant_kept [OF h, of quiet "request ''A100'' ''PRIZE1''"] h q p show ?thesis by simp
qed

text \<open>The record handler writes twice, the order document first. When the second write
  fails, the order is played and has no draw result: the invariant does not hold after
  every operation.\<close>

theorem invariant_broken_by_failed_write:
  "redemption_inv seeded ''A100''
   \<and> \<not> redemption_inv (post (record_draw_result set_down seeded (request ''A100'' ''PRIZE1''))) ''A100''"
  by (simp add: redemption_inv_def draw_count_def has_played_def record_draw_result_def
      request_def get_field_def doc_ref_def set_down_def seeded_def get_doc_def played_def)

section \<open>Recording the same order number again\<close>

text \<open>
  C4 (as amended). Record requests for the same order number (in the store, not played;
  draw results not empty) that are served one after the other: the first one answers
  success and every later one AlreadyUsed, and the later ones leave the store as the
  first one left it. (The store answers every call.)
\<close>

theorem record_once_in_sequence:
  assumes id: "valid_id n" and present: "get_doc (orderNumbers s) n = Some d"
    and unplayed: "\<not> truthy (get_field d ''hasPlayed'')"
    and calls: "\<forall>(e, body) \<in> set (first # later). body ''orderNumber'' = Some (JStr n)
           \<and> truthy (get_field body ''drawResult'')
           \<and> \<not> fails e (OpGet n) \<and> \<not> fails e (OpUpdate n) \<and> \<not> fails e (OpSet n)"
  shows "fst (record_calls s (first # later)) =
           ok_message msg_recorded # replicate (length later) (fail_message 400 msg_already_used)
       \<and> snd (record_calls s (first # later)) =
           post (record_draw_result (fst first) s (snd first))"
proof -
  obtain e body where f: "first = (e, body)" by (cases first)
  from calls f have b: "body ''orderNumber'' = Some (JStr n)" and t: "truthy (get_field body ''drawResult'')"
    and nf: "\<not> fails e (OpGet n)" "\<not> fails e (OpUpdate n)" "\<not> fails e (OpSet n)"
    by auto
  from t obtain r where r: "body ''drawResult'' = Some r" "truthy r"
    by (cases "body ''drawResult''") (auto simp: get_field_def)
  from record_unplayed [OF id present unplayed b r, of e] nf
  obtain c where g: "get_doc c = (get_doc (orderNumbers s))(n \<mapsto> d ++ played r)"
    and out: "record_draw_result e s body =
                  \<lparr>resp = ok_message msg_recorded,
                   post = s\<lparr>orderNumbers := c,
                     drawResults := set_doc (drawResults s) n (draw_record e (JStr n) r)\<rparr>,
                   trace = [OpGet n, OpUpdate n, OpSet n]\<rparr>"
    by auto
  let ?s1 = "s\<lparr>orderNumbers := c,
                     drawResults := set_doc (drawResults s) n (draw_record e (JStr n) r)\<rparr>"
  have g1: "get_doc (orderNumbers ?s1) n = Some (d ++ played r)" using g by simp
  have p1: "truthy (get_field (d ++ played r) ''hasPlayed'')"
    by (simp add: get_field_def played_fields)
  have later: "\<forall>(e, body) \<in> set later. body ''orderNumber'' = Some (JStr n)
           \<and> truthy (get_field body ''drawResult'') \<and> \<not> fails e (OpGet n)"
    using calls by auto
  from record_calls_played [OF id g1 p1 later] out f show ?thesis by simp
qed

theorem record_once_in_sequence_witness:
  "fst (record_calls seeded
     [(quiet, request ''A100'' ''PRIZE1''), (quiet, request ''A100'' ''PRIZE2''),
      (quiet, request ''A100'' ''PRIZE3'')]) =
   [ok_message msg_recorded, fail_message 400 msg_already_used, fail_message 400 msg_already_used]"
proof -
  have h1: "valid_id ''A100''" by (simp add: valid_id_def)
  have h3: "\<not> truthy (get_field [''orderNumber'' \<mapsto> JStr ''A100'', ''hasPlayed'' \<mapsto> JBool False] ''hasPlayed'')"
    by (simp add: get_field_def)
  have h4: "\<forall>(e, body) \<in> set [(quiet, request ''A100'' ''PRIZE1''), (quiet, request ''A100'' ''PRIZE2''),
      (quiet, request ''A100'' ''PRIZE3'')]. body ''orderNumber'' = Some (JStr ''A100'')
           \<and> truthy (get_field body ''drawResult'')
           \<and> \<not> fails e (OpGet ''A100'') \<and> \<not> fails e (OpUpdate ''A100'') \<and> \<not> fails e (OpSet ''A100'')"
    by (simp add: request_def get_field_def quiet_def)
  from record_once_in_sequence [OF h1 seeded_A100 h3 h4] show ?thesis by simp
qed

text \<open>Two record requests for \<open>A100\<close> in flight at once, taking turns at each store call:
  both read \<open>hasPlayed = false\<close> before either writes, and both answer success.\<close>

theorem concurrent_records_both_succeed:
  "map snd (snd (interleave seeded
       [(quiet, Begin (request ''A100'' ''PRIZE1'')), (quiet, Begin (request ''A100'' ''PRIZE2''))]
       [0, 1, 0, 1, 0, 1])) =
     [Done (ok_message msg_recorded), Done (ok_message msg_recorded)]"
  by (simp add: Let_def request_def get_field_def doc_ref_def quiet_def seeded_def get_doc_def
      played_def)

end
